theory Spec2Isabelle
  imports Main
begin

section \<open>The extension server of crosswalk-tizen (src/extension/extension\_server.cc)\<close>

text \<open>
  A shallow embedding of \<^verbatim>\<open>wrt::ExtensionServer\<close>. The member variables
  \<^verbatim>\<open>extensions_\<close>, \<^verbatim>\<open>extension_symbols_\<close>, \<^verbatim>\<open>instances_\<close> and \<^verbatim>\<open>app_uuid_\<close> are the
  fields of a record (written without the trailing underscore, which Isabelle does
  not accept in a name). Every member function takes the server and returns the
  updated server. What a member function does to the outside (a log line, a D-Bus
  reply, a D-Bus signal, a call into an extension's native code, a \<^verbatim>\<open>delete\<close>) is
  appended to the field \<open>trace\<close>, in program order.
\<close>

subsection \<open>Collaborators declared outside extension\_server.cc\<close>

text \<open>
  Modelled from the spec: the class \<^verbatim>\<open>Extension\<close> (extension/extension.h is missing).
  The server reads a loaded module through the accessors \<^verbatim>\<open>name()\<close>,
  \<^verbatim>\<open>javascript_api()\<close> and \<^verbatim>\<open>entry_points()\<close>; the spec's ExtensionModule has a
  name, a capability description and a list of entry-point identifiers.
\<close>

record Extension =
  name :: string
  javascript_api :: string
  entry_points :: "string list"

text \<open>
  \<^verbatim>\<open>GDBusConnection*\<close> and \<^verbatim>\<open>GDBusMethodInvocation*\<close> are handles of the transport.
  A connection pointer may be null.
\<close>

datatype GDBusConnection = NULL | Connection nat

type_synonym GDBusMethodInvocation = nat

text \<open>
  Modelled from the spec: the class \<^verbatim>\<open>ExtensionInstance\<close> (its header is missing). The
  spec's Instance has a back-reference to its owning module and two optional sinks:
  \<open>async_callback\<close>, set by \<^verbatim>\<open>SetPostMessageCallback\<close>, and \<open>pending_sync_reply\<close>,
  set by \<^verbatim>\<open>SetSendSyncReplyCallback\<close>. A sink is a \<^verbatim>\<open>std::bind\<close> closure of a server
  callback; the record keeps the bound arguments: the connection and the instance id
  for \<^verbatim>\<open>PostMessageToJSCallback\<close>, the invocation for \<^verbatim>\<open>SyncReplyCallback\<close>. The
  first sink is set once at creation; the second is the spec's one-shot reply sink,
  ``set transiently for the duration of one sync call; cleared after the reply is
  delivered''.
\<close>

record ExtensionInstance =
  extension :: Extension
  post_message_callback :: "(GDBusConnection \<times> string) option"
  send_sync_reply_callback :: "GDBusMethodInvocation option"

definition SetPostMessageCallback ::
    "(GDBusConnection \<times> string) \<Rightarrow> ExtensionInstance \<Rightarrow> ExtensionInstance" where
  "SetPostMessageCallback cb inst = inst\<lparr>post_message_callback := Some cb\<rparr>"

definition SetSendSyncReplyCallback ::
    "GDBusMethodInvocation \<Rightarrow> ExtensionInstance \<Rightarrow> ExtensionInstance" where
  "SetSendSyncReplyCallback cb inst = inst\<lparr>send_sync_reply_callback := Some cb\<rparr>"

text \<open>
  What the native code of an extension does while the server is inside
  \<^verbatim>\<open>HandleMessage\<close> or \<^verbatim>\<open>HandleSyncMessage\<close>: it fires the instance's sinks, any number
  of times and in any order. The list is an input of the model, one per call.
\<close>

datatype native_action = PostMessageToJS string | SyncReplyToJS string

subsection \<open>Observable effects\<close>

datatype severity = DEBUG | INFO | WARN | ERROR

datatype GVariant =
    String string
  | ExtensionArray "string \<rightharpoonup> Extension"

datatype event =
    LOGGER severity string
  | return_value GDBusMethodInvocation GVariant
  | return_error GDBusMethodInvocation string
  | SendSignal GDBusConnection string string
  | HandleMessage ExtensionInstance string
  | HandleSyncMessage ExtensionInstance string
  | delete_Extension string
  | delete_ExtensionInstance ExtensionInstance
  | dbus_server_Start string
  | NotifyEPCreated

text \<open>
  \<open>return_error\<close> is \<^verbatim>\<open>g_dbus_method_invocation_return_error\<close> with the domain
  \<^verbatim>\<open>G_DBUS_ERROR\<close> and the code \<^verbatim>\<open>G_DBUS_ERROR_FAILED\<close>, which every error reply of the
  server uses; the event keeps the formatted message. \<open>SendSignal\<close> is the signal
  \<^verbatim>\<open>OnMessageToJS\<close> (instance id, message) on a connection, \<open>dbus_server_Start\<close> the
  start of the server's own endpoint under the given name.
\<close>

subsection \<open>The server\<close>

record ExtensionServer =
  app_uuid :: string
  extensions :: "string \<rightharpoonup> Extension"
  extension_symbols :: "string set"
  instances :: "string \<rightharpoonup> ExtensionInstance"
  trace :: "event list"

definition emit :: "event list \<Rightarrow> ExtensionServer \<Rightarrow> ExtensionServer" where
  "emit es s = s\<lparr>trace := trace s @ es\<rparr>"

text \<open>The constructor \<^verbatim>\<open>ExtensionServer(uuid)\<close>: empty tables.\<close>

definition new_ExtensionServer :: "string \<Rightarrow> ExtensionServer" where
  "new_ExtensionServer uuid =
     \<lparr>app_uuid = uuid, extensions = Map.empty, extension_symbols = {},
      instances = Map.empty, trace = []\<rparr>"

definition quoted :: "string \<Rightarrow> string" where
  "quoted x = [CHR 0x27] @ x @ [CHR 0x27]"

subsection \<open>Registration\<close>

text \<open>
  \<^verbatim>\<open>RegisterSymbols\<close>: the name is looked up first, then the first loop looks every
  entry point up and returns at the first one found; only then the second loop
  inserts the entry points, and the name is inserted last.
\<close>

definition RegisterSymbols :: "Extension \<Rightarrow> ExtensionServer \<Rightarrow> bool \<times> ExtensionServer" where
  "RegisterSymbols ext s =
     (if name ext \<in> extension_symbols s then
        (False, emit [LOGGER WARN
           (''Ignoring extension with name already registred. '' @ quoted (name ext))] s)
      else
        (case find (\<lambda>ep. ep \<in> extension_symbols s) (entry_points ext) of
           Some ep \<Rightarrow>
             (False, emit [LOGGER WARN
                (''Ignoring extension with entry_point already registred. '' @ quoted ep)] s)
         | None \<Rightarrow>
             (True, s\<lparr>extension_symbols :=
                insert (name ext) (fold insert (entry_points ext) (extension_symbols s))\<rparr>)))"

text \<open>
  Modelled from the spec: the module loader (\<open>ModuleLoader.load(path)\<close> of the spec's
  design notes). \<^verbatim>\<open>new Extension(path, this)\<close> followed by \<^verbatim>\<open>Initialize()\<close> is the
  function \<open>load\<close>: \<open>None\<close> when \<^verbatim>\<open>Initialize()\<close> returns false, otherwise the
  initialised object.
\<close>

type_synonym module_loader = "string \<Rightarrow> Extension option"

definition RegisterExtension ::
    "module_loader \<Rightarrow> string \<Rightarrow> ExtensionServer \<Rightarrow> ExtensionServer" where
  "RegisterExtension load path s =
     (case load path of
        None \<Rightarrow> emit [delete_Extension path] s
      | Some ext \<Rightarrow>
          (case RegisterSymbols ext s of
             (False, s') \<Rightarrow> emit [delete_Extension path] s'
           | (True, s') \<Rightarrow>
               emit [LOGGER DEBUG (name ext @ '' is registered.'')]
                 (s'\<lparr>extensions := (extensions s')(name ext \<mapsto> ext)\<rparr>)))"

text \<open>
  The world outside the process, as \<^verbatim>\<open>Start\<close> meets it: the result of
  \<^verbatim>\<open>dbus_application_client_.ConnectByName\<close> for a bus name, the paths \<^verbatim>\<open>glob\<close>
  returns for a pattern, \<^verbatim>\<open>utils::Exists\<close>, and the module loader. The build macro
  \<^verbatim>\<open>EXTENSION_PATH\<close> and the constants of common/constants.h (missing) are
  parameters.
\<close>

record environment =
  EXTENSION_PATH :: string
  kDBusNameForApplication :: string
  kDBusNameForExtension :: string
  ConnectByName :: "string \<Rightarrow> bool"
  glob :: "string \<Rightarrow> string list"
  Exists :: "string \<Rightarrow> bool"
  Initialize :: module_loader

definition kExtensionPrefix :: string where
  "kExtensionPrefix = ''lib''"

definition kExtensionSuffix :: string where
  "kExtensionSuffix = ''.so''"

definition RegisterSystemExtensions :: "environment \<Rightarrow> ExtensionServer \<Rightarrow> ExtensionServer" where
  "RegisterSystemExtensions env s =
     (let extension_path =
            EXTENSION_PATH env @ ''/'' @ kExtensionPrefix @ ''*'' @ kExtensionSuffix
      in fold (RegisterExtension (Initialize env)) (glob env extension_path) s)"

text \<open>The body of the loop of \<^verbatim>\<open>Start\<close> over the caller's paths.\<close>

definition register_existing ::
    "environment \<Rightarrow> string \<Rightarrow> ExtensionServer \<Rightarrow> ExtensionServer" where
  "register_existing env path t =
     (if Exists env path then RegisterExtension (Initialize env) path t else t)"

text \<open>
  \<^verbatim>\<open>Start(paths)\<close>. \<^verbatim>\<open>SetIntrospectionXML\<close> and \<^verbatim>\<open>SetMethodCallback\<close> configure the
  server's endpoint before it is started and leave no event of their own; the value
  \<^verbatim>\<open>dbus_server_.Start\<close> returns is not read by the source.
\<close>

definition Start :: "environment \<Rightarrow> string list \<Rightarrow> ExtensionServer \<Rightarrow> bool \<times> ExtensionServer" where
  "Start env paths s =
     (if \<not> ConnectByName env (app_uuid s @ ''.'' @ kDBusNameForApplication env) then
        (False,
         emit [LOGGER ERROR ''Failed to connect to the dbus server for Application.''] s)
      else
        (let s1 = RegisterSystemExtensions env s;
             s2 = fold (register_existing env) paths s1
         in (True,
             emit [dbus_server_Start (app_uuid s2 @ ''.'' @ kDBusNameForExtension env),
                   NotifyEPCreated] s2)))"

subsection \<open>Callbacks bound into an instance\<close>

definition SyncReplyCallback ::
    "string \<Rightarrow> GDBusMethodInvocation \<Rightarrow> ExtensionServer \<Rightarrow> ExtensionServer" where
  "SyncReplyCallback reply invocation s = emit [return_value invocation (String reply)] s"

definition PostMessageToJSCallback ::
    "(GDBusConnection \<Rightarrow> bool) \<Rightarrow> GDBusConnection \<Rightarrow> string \<Rightarrow> string
       \<Rightarrow> ExtensionServer \<Rightarrow> ExtensionServer" where
  "PostMessageToJSCallback is_closed connection instance_id msg s =
     (if connection = NULL \<or> is_closed connection then
        emit [LOGGER ERROR ''Client connection is closed already.''] s
      else emit [SendSignal connection instance_id msg] s)"

text \<open>
  Modelled from the spec: how an instance fires a sink (the class \<^verbatim>\<open>ExtensionInstance\<close>
  is missing). The module's native code pushes a message or a reply; the instance
  invokes the sink it holds with that string. A sink that is not set cannot be
  invoked and the action has no effect in the model. The post-message sink stays
  after it fired. The reply sink is one-shot: the instance invokes it with the reply,
  and the sink is cleared once the reply has been handed over.
\<close>

fun fire :: "(GDBusConnection \<Rightarrow> bool) \<Rightarrow> native_action
    \<Rightarrow> ExtensionInstance \<times> ExtensionServer \<Rightarrow> ExtensionInstance \<times> ExtensionServer" where
  "fire is_closed (PostMessageToJS msg) (inst, s) =
     (case post_message_callback inst of
        None \<Rightarrow> (inst, s)
      | Some (connection, instance_id) \<Rightarrow>
          (inst, PostMessageToJSCallback is_closed connection instance_id msg s))"
| "fire is_closed (SyncReplyToJS reply) (inst, s) =
     (case send_sync_reply_callback inst of
        None \<Rightarrow> (inst, s)
      | Some invocation \<Rightarrow>
          (inst\<lparr>send_sync_reply_callback := None\<rparr>, SyncReplyCallback reply invocation s))"

text \<open>
  Modelled from the spec: \<^verbatim>\<open>ExtensionInstance::HandleMessage\<close> and
  \<^verbatim>\<open>ExtensionInstance::HandleSyncMessage\<close> hand the message to the module's native
  handler, which fires sinks one after the other. The instance is an object the
  instance table points to, so what the firing did to its reply sink is seen in the
  table entry afterwards.
\<close>

definition deliver :: "(GDBusConnection \<Rightarrow> bool) \<Rightarrow> native_action list \<Rightarrow> string
    \<Rightarrow> ExtensionInstance \<Rightarrow> ExtensionServer \<Rightarrow> ExtensionServer" where
  "deliver is_closed acts instance_id inst s =
     (case fold (fire is_closed) acts (inst, s) of
        (inst', s') \<Rightarrow> s'\<lparr>instances := (instances s')(instance_id \<mapsto> inst')\<rparr>)"

subsection \<open>The five remote operations\<close>

text \<open>
  What one method call meets outside the server: the string \<^verbatim>\<open>utils::GenerateUUID()\<close>
  returns, whether the module's factory \<^verbatim>\<open>Extension::CreateInstance()\<close> returns an
  instance (\<open>False\<close>: a null pointer), what the native handler does while the message
  is delivered, and which connections are closed.
\<close>

record call_env =
  GenerateUUID :: string
  Extension_CreateInstance :: "Extension \<Rightarrow> bool"
  native :: "native_action list"
  g_dbus_connection_is_closed :: "GDBusConnection \<Rightarrow> bool"

definition OnGetExtensions :: "GDBusMethodInvocation \<Rightarrow> ExtensionServer \<Rightarrow> ExtensionServer" where
  "OnGetExtensions invocation s =
     emit [return_value invocation (ExtensionArray (extensions s))] s"

text \<open>
  \<^verbatim>\<open>OnCreateInstance\<close> calls \<^verbatim>\<open>GenerateUUID\<close> in its first statement, before the module
  is looked up.
\<close>

definition OnCreateInstance ::
    "call_env \<Rightarrow> GDBusConnection \<Rightarrow> string \<Rightarrow> GDBusMethodInvocation
       \<Rightarrow> ExtensionServer \<Rightarrow> ExtensionServer" where
  "OnCreateInstance env connection extension_name invocation s =
     (let instance_id = GenerateUUID env in
      case extensions s extension_name of
        None \<Rightarrow>
          emit [LOGGER ERROR (''Failed to find extension '' @ quoted extension_name),
                return_error invocation (''Not found extension '' @ extension_name)] s
      | Some ext \<Rightarrow>
          if \<not> Extension_CreateInstance env ext then
            emit [LOGGER ERROR
                    (''Failed to create instance of extension '' @ quoted extension_name),
                  return_error invocation
                    (''Failed to create instance of extension '' @ extension_name)] s
          else
            (let instance = SetPostMessageCallback (connection, instance_id)
                   \<lparr>extension = ext, post_message_callback = None,
                    send_sync_reply_callback = None\<rparr>
             in emit [return_value invocation (String instance_id)]
                  (s\<lparr>instances := (instances s)(instance_id \<mapsto> instance)\<rparr>)))"

definition OnDestroyInstance ::
    "string \<Rightarrow> GDBusMethodInvocation \<Rightarrow> ExtensionServer \<Rightarrow> ExtensionServer" where
  "OnDestroyInstance instance_id invocation s =
     (case instances s instance_id of
        None \<Rightarrow>
          emit [LOGGER ERROR (''Failed to find instance '' @ quoted instance_id),
                return_error invocation (''Not found instance '' @ instance_id)] s
      | Some instance \<Rightarrow>
          emit [delete_ExtensionInstance instance,
                return_value invocation (String instance_id)]
            (s\<lparr>instances := (instances s)(instance_id := None)\<rparr>))"

definition OnSendSyncMessage ::
    "call_env \<Rightarrow> string \<Rightarrow> string \<Rightarrow> GDBusMethodInvocation
       \<Rightarrow> ExtensionServer \<Rightarrow> ExtensionServer" where
  "OnSendSyncMessage env instance_id msg invocation s =
     (case instances s instance_id of
        None \<Rightarrow>
          emit [LOGGER ERROR (''Failed to find instance '' @ quoted instance_id),
                return_error invocation (''Not found instance '' @ instance_id)] s
      | Some instance0 \<Rightarrow>
          (let instance = SetSendSyncReplyCallback invocation instance0;
               s1 = s\<lparr>instances := (instances s)(instance_id \<mapsto> instance)\<rparr>
           in deliver (g_dbus_connection_is_closed env) (native env) instance_id instance
                (emit [HandleSyncMessage instance msg] s1)))"

definition OnPostMessage ::
    "call_env \<Rightarrow> string \<Rightarrow> string \<Rightarrow> ExtensionServer \<Rightarrow> ExtensionServer" where
  "OnPostMessage env instance_id msg s =
     (case instances s instance_id of
        None \<Rightarrow> emit [LOGGER ERROR (''Failed to find instance '' @ quoted instance_id)] s
      | Some instance \<Rightarrow>
          deliver (g_dbus_connection_is_closed env) (native env) instance_id instance
            (emit [HandleMessage instance msg] s))"

text \<open>
  \<^verbatim>\<open>HandleDBusMethod\<close> compares the method name with five constants and decodes the
  parameters; a name that matches none has no effect. The decoded call is a value of
  \<open>method_call\<close>.
\<close>

datatype method_call =
    kMethodGetExtensions
  | kMethodCreateInstance string
  | kMethodDestroyInstance string
  | kMethodSendSyncMessage string string
  | kMethodPostMessage string string
  | other_method string

fun HandleDBusMethod ::
    "call_env \<Rightarrow> GDBusConnection \<Rightarrow> method_call \<Rightarrow> GDBusMethodInvocation
       \<Rightarrow> ExtensionServer \<Rightarrow> ExtensionServer" where
  "HandleDBusMethod env connection kMethodGetExtensions invocation s =
     OnGetExtensions invocation s"
| "HandleDBusMethod env connection (kMethodCreateInstance extension_name) invocation s =
     OnCreateInstance env connection extension_name invocation s"
| "HandleDBusMethod env connection (kMethodDestroyInstance instance_id) invocation s =
     OnDestroyInstance instance_id invocation s"
| "HandleDBusMethod env connection (kMethodSendSyncMessage instance_id msg) invocation s =
     OnSendSyncMessage env instance_id msg invocation s"
| "HandleDBusMethod env connection (kMethodPostMessage instance_id msg) invocation s =
     OnPostMessage env instance_id msg s"
| "HandleDBusMethod env connection (other_method m) invocation s = s"

subsection \<open>Sequences of method calls\<close>

text \<open>
  The run loop hands the server one method call after the other; each call comes with
  what it meets outside the server.
\<close>

type_synonym dbus_call = "call_env \<times> GDBusConnection \<times> method_call \<times> GDBusMethodInvocation"

definition dispatch :: "dbus_call \<Rightarrow> ExtensionServer \<Rightarrow> ExtensionServer" where
  "dispatch c s = (case c of (env, connection, m, invocation) \<Rightarrow>
     HandleDBusMethod env connection m invocation s)"

definition run :: "dbus_call list \<Rightarrow> ExtensionServer \<Rightarrow> ExtensionServer" where
  "run calls s = fold dispatch calls s"

text \<open>The ids \<^verbatim>\<open>GenerateUUID\<close> returned during a sequence of calls, oldest first.\<close>

fun generated :: "dbus_call list \<Rightarrow> string list" where
  "generated [] = []"
| "generated ((env, connection, kMethodCreateInstance extension_name, invocation) # cs) =
     GenerateUUID env # generated cs"
| "generated (c # cs) = generated cs"

subsection \<open>Predicates used to state the properties\<close>

text \<open>
  The identifiers a module claims: its name and its entry points (the candidate
  namespace of the spec).
\<close>

definition namespace_of :: "Extension \<Rightarrow> string set" where
  "namespace_of ext = insert (name ext) (set (entry_points ext))"

text \<open>
  The registry is consistent when every module is stored under its own name, the
  identifiers of two stored modules never meet, and the symbol set holds exactly the
  identifiers of the stored modules.
\<close>

definition registry_inv :: "ExtensionServer \<Rightarrow> bool" where
  "registry_inv s \<longleftrightarrow>
     (\<forall>n e. extensions s n = Some e \<longrightarrow> name e = n)
   \<and> (\<forall>n1 e1 n2 e2. extensions s n1 = Some e1 \<and> extensions s n2 = Some e2 \<and> n1 \<noteq> n2
        \<longrightarrow> namespace_of e1 \<inter> namespace_of e2 = {})
   \<and> extension_symbols s = (\<Union>e \<in> ran (extensions s). namespace_of e)"




subsection \<open>Sample configurations\<close>

text \<open>
  A file system with two system modules and two caller-supplied ones, used to run
  the definitions on concrete inputs. The module \<open>cam\<close> lists its own name and one
  entry point twice among its entry points.
\<close>

definition sample_loader :: module_loader where
  "sample_loader path =
     (if path = ''/usr/lib/tizen-extensions/libgeo.so'' then
        Some \<lparr>name = ''geo'', javascript_api = ''system geo'', entry_points = [''geo.locate'']\<rparr>
      else if path = ''/usr/lib/tizen-extensions/libcam.so'' then
        Some \<lparr>name = ''cam'', javascript_api = ''system cam'',
              entry_points = [''cam.shot'', ''cam'', ''cam.shot'']\<rparr>
      else if path = ''/opt/usr/libgeo.so'' then
        Some \<lparr>name = ''geo'', javascript_api = ''user geo'', entry_points = []\<rparr>
      else if path = ''/opt/usr/libmap.so'' then
        Some \<lparr>name = ''map'', javascript_api = ''user map'', entry_points = [''geo.locate'']\<rparr>
      else None)"

definition sample_paths :: "string list" where
  "sample_paths = [''/usr/lib/tizen-extensions/libgeo.so'', ''/nowhere/libx.so'',
      ''/usr/lib/tizen-extensions/libcam.so'', ''/opt/usr/libgeo.so'']"

text \<open>
  The server after the sample paths were registered (\<open>geo\<close> and \<open>cam\<close> are admitted), a
  call environment whose factory refuses \<open>cam\<close> and whose native handler replies
  \<open>pong\<close>, and the server after one instance of \<open>geo\<close> was created.
\<close>

definition sample_server :: ExtensionServer where
  "sample_server =
     fold (RegisterExtension sample_loader) sample_paths (new_ExtensionServer ''app'')"

definition sample_env :: call_env where
  "sample_env =
     \<lparr>GenerateUUID = ''id-1'',
      Extension_CreateInstance = (\<lambda>ext. name ext \<noteq> ''cam''),
      native = [SyncReplyToJS ''pong''],
      g_dbus_connection_is_closed = (\<lambda>connection. False)\<rparr>"

definition sample_instance :: ExtensionInstance where
  "sample_instance =
     \<lparr>extension = \<lparr>name = ''geo'', javascript_api = ''system geo'',
                    entry_points = [''geo.locate'']\<rparr>,
      post_message_callback = Some (Connection 1, ''id-1''),
      send_sync_reply_callback = None\<rparr>"

definition sample_live :: ExtensionServer where
  "sample_live = OnCreateInstance sample_env (Connection 1) ''geo'' 12 sample_server"

text \<open>
  The world around \<^verbatim>\<open>Start\<close> for the sample file system, and a second one in which the
  system directory holds two modules that claim the same entry point: \<open>liba.so\<close>, a
  module named \<open>first\<close>, and \<open>libb.so\<close>, a module named \<open>A\<close>. \<^verbatim>\<open>glob\<close> returns the
  paths in sorted order.
\<close>

definition sample_environment :: environment where
  "sample_environment =
     \<lparr>EXTENSION_PATH = ''/usr/lib/tizen-extensions'',
      kDBusNameForApplication = ''Application'',
      kDBusNameForExtension = ''Extension'',
      ConnectByName = (\<lambda>bus_name. bus_name = ''app.Application''),
      glob = (\<lambda>pattern. if pattern = ''/usr/lib/tizen-extensions/lib*.so''
                then [''/usr/lib/tizen-extensions/libcam.so'',
                      ''/usr/lib/tizen-extensions/libgeo.so'']
                else []),
      Exists = (\<lambda>path. path \<noteq> ''/nowhere/libx.so''),
      Initialize = sample_loader\<rparr>"

definition shadow_loader :: module_loader where
  "shadow_loader path =
     (if path = ''/usr/lib/tizen-extensions/liba.so'' then
        Some \<lparr>name = ''first'', javascript_api = ''system first'', entry_points = [''shared'']\<rparr>
      else if path = ''/usr/lib/tizen-extensions/libb.so'' then
        Some \<lparr>name = ''A'', javascript_api = ''system A'', entry_points = [''shared'']\<rparr>
      else if path = ''/opt/usr/libA.so'' then
        Some \<lparr>name = ''A'', javascript_api = ''user A'', entry_points = []\<rparr>
      else None)"

definition shadow_environment :: environment where
  "shadow_environment =
     sample_environment
       \<lparr>glob := (\<lambda>pattern. if pattern = ''/usr/lib/tizen-extensions/lib*.so''
                then [''/usr/lib/tizen-extensions/liba.so'',
                      ''/usr/lib/tizen-extensions/libb.so'']
                else []),
        Initialize := shadow_loader\<rparr>"

text \<open>
  Four method calls in a row: create an instance of \<open>geo\<close>, destroy it, create a
  second one, and send a sync message to the first.
\<close>

definition sample_calls :: "dbus_call list" where
  "sample_calls =
     [(sample_env, Connection 1, kMethodCreateInstance ''geo'', 12),
      (sample_env, Connection 1, kMethodDestroyInstance ''id-1'', 13),
      (sample_env\<lparr>GenerateUUID := ''id-2''\<rparr>, Connection 1, kMethodCreateInstance ''geo'', 14),
      (sample_env, Connection 1, kMethodSendSyncMessage ''id-1'' ''ping'', 15)]"

section \<open>Properties of registration\<close>

lemma fold_insert_set: "fold insert xs A = set xs \<union> A"
  by (induction xs arbitrary: A) auto

lemma find_None_symbols:
  "find (\<lambda>ep. ep \<in> A) xs = None \<longleftrightarrow> set xs \<inter> A = {}"
  by (auto simp: find_None_iff)

lemma RegisterSymbols_accept:
  assumes "name ext \<notin> extension_symbols s"
    and "set (entry_points ext) \<inter> extension_symbols s = {}"
  shows "RegisterSymbols ext s =
     (True, s\<lparr>extension_symbols :=
        insert (name ext) (set (entry_points ext) \<union> extension_symbols s)\<rparr>)"
proof -
  from assms(2) have "find (\<lambda>ep. ep \<in> extension_symbols s) (entry_points ext) = None"
    by (simp add: find_None_symbols)
  with assms(1) show ?thesis
    by (simp add: RegisterSymbols_def fold_insert_set)
qed

lemma RegisterSymbols_reject:
  assumes "name ext \<in> extension_symbols s
      \<or> set (entry_points ext) \<inter> extension_symbols s \<noteq> {}"
  shows "fst (RegisterSymbols ext s) = False"
    and "extensions (snd (RegisterSymbols ext s)) = extensions s"
    and "extension_symbols (snd (RegisterSymbols ext s)) = extension_symbols s"
    and "instances (snd (RegisterSymbols ext s)) = instances s"
  using assms
  by (auto simp: RegisterSymbols_def emit_def find_None_symbols split: option.splits)

text \<open>
  C10. The two lookups of \<^verbatim>\<open>RegisterSymbols\<close> compare the candidate only with the
  symbols registered before the call. A module whose name and entry points are all
  new is admitted whatever its entry-point list looks like: the list may hold the
  module's own name, and may hold an entry point twice. The symbol set afterwards is
  the old set with the name and the entry points added; being a set, it holds a
  repeated identifier once, so it grows by the number of different identifiers of the
  module.
\<close>

theorem admission_ignores_self_collisions:
  assumes "name ext \<notin> extension_symbols s"
    and "\<forall>ep \<in> set (entry_points ext). ep \<notin> extension_symbols s"
    and "load path = Some ext"
  shows "RegisterSymbols ext s =
           (True, s\<lparr>extension_symbols :=
              insert (name ext) (set (entry_points ext) \<union> extension_symbols s)\<rparr>)
       \<and> extensions (RegisterExtension load path s) = (extensions s)(name ext \<mapsto> ext)
       \<and> extension_symbols (RegisterExtension load path s) =
           insert (name ext) (set (entry_points ext) \<union> extension_symbols s)
       \<and> (finite (extension_symbols s) \<longrightarrow>
            card (extension_symbols (RegisterExtension load path s)) =
              card (extension_symbols s) + card (insert (name ext) (set (entry_points ext))))"
proof -
  from assms(2) have disj: "set (entry_points ext) \<inter> extension_symbols s = {}"
    by auto
  have acc: "RegisterSymbols ext s =
     (True, s\<lparr>extension_symbols :=
        insert (name ext) (set (entry_points ext) \<union> extension_symbols s)\<rparr>)"
    by (rule RegisterSymbols_accept [OF assms(1) disj])
  have syms: "extension_symbols (RegisterExtension load path s) =
      insert (name ext) (set (entry_points ext)) \<union> extension_symbols s"
    using acc assms(3) by (simp add: RegisterExtension_def emit_def)
  have d: "insert (name ext) (set (entry_points ext)) \<inter> extension_symbols s = {}"
    using assms(1) disj by auto
  have c: "card (extension_symbols (RegisterExtension load path s)) =
      card (extension_symbols s) + card (insert (name ext) (set (entry_points ext)))"
    if "finite (extension_symbols s)"
  proof -
    have "card (insert (name ext) (set (entry_points ext)) \<union> extension_symbols s) =
        card (insert (name ext) (set (entry_points ext))) + card (extension_symbols s)"
      by (rule card_Un_disjoint) (use that d in simp_all)
    then show ?thesis unfolding syms by simp
  qed
  show ?thesis
    using acc assms(3) c by (simp add: RegisterExtension_def emit_def)
qed

theorem admission_ignores_self_collisions_witness:
  "sample_loader ''/usr/lib/tizen-extensions/libcam.so''
     = Some \<lparr>name = ''cam'', javascript_api = ''system cam'',
              entry_points = [''cam.shot'', ''cam'', ''cam.shot'']\<rparr>
   \<and> extensions (RegisterExtension sample_loader ''/usr/lib/tizen-extensions/libcam.so''
        (new_ExtensionServer ''app'')) ''cam''
     = Some \<lparr>name = ''cam'', javascript_api = ''system cam'',
              entry_points = [''cam.shot'', ''cam'', ''cam.shot'']\<rparr>
   \<and> extension_symbols (RegisterExtension sample_loader
        ''/usr/lib/tizen-extensions/libcam.so'' (new_ExtensionServer ''app''))
     = {''cam'', ''cam.shot''}
   \<and> card (extension_symbols (RegisterExtension sample_loader
        ''/usr/lib/tizen-extensions/libcam.so'' (new_ExtensionServer ''app''))) = 2"
proof -
  let ?cam = "\<lparr>name = ''cam'', javascript_api = ''system cam'',
              entry_points = [''cam.shot'', ''cam'', ''cam.shot'']\<rparr>"
  let ?s = "new_ExtensionServer ''app''"
  have l: "sample_loader ''/usr/lib/tizen-extensions/libcam.so'' = Some ?cam"
    by (simp add: sample_loader_def)
  have n: "name ?cam \<notin> extension_symbols ?s"
    by (simp add: new_ExtensionServer_def)
  have e: "\<forall>ep \<in> set (entry_points ?cam). ep \<notin> extension_symbols ?s"
    by (simp add: new_ExtensionServer_def)
  note T = admission_ignores_self_collisions
    [of ?cam ?s sample_loader "''/usr/lib/tizen-extensions/libcam.so''", OF n e l]
  from T have t2: "extensions (RegisterExtension sample_loader
      ''/usr/lib/tizen-extensions/libcam.so'' ?s) ''cam'' = Some ?cam"
    by simp
  from T have t3: "extension_symbols (RegisterExtension sample_loader
      ''/usr/lib/tizen-extensions/libcam.so'' ?s) = {''cam'', ''cam.shot''}"
    by (simp add: new_ExtensionServer_def insert_commute)
  have f: "finite (extension_symbols ?s)" by (simp add: new_ExtensionServer_def)
  from T [THEN conjunct2, THEN conjunct2, THEN conjunct2, THEN mp, OF f]
  have t4: "card (extension_symbols (RegisterExtension sample_loader
      ''/usr/lib/tizen-extensions/libcam.so'' ?s)) = 2"
    by (simp add: new_ExtensionServer_def insert_commute)
  show ?thesis
    by (intro conjI) (rule l t2 t3 t4)+
qed

lemma registry_inv_new: "registry_inv (new_ExtensionServer uuid)"
  by (simp add: registry_inv_def new_ExtensionServer_def)

lemma RegisterExtension_cases:
  "(extensions (RegisterExtension load path s) = extensions s
      \<and> extension_symbols (RegisterExtension load path s) = extension_symbols s)
   \<or> (\<exists>ext. load path = Some ext \<and> name ext \<notin> extension_symbols s
        \<and> set (entry_points ext) \<inter> extension_symbols s = {}
        \<and> extensions (RegisterExtension load path s) = (extensions s)(name ext \<mapsto> ext)
        \<and> extension_symbols (RegisterExtension load path s) =
             namespace_of ext \<union> extension_symbols s)"
proof (cases "load path")
  case None
  then show ?thesis by (simp add: RegisterExtension_def emit_def)
next
  case (Some ext)
  show ?thesis
  proof (cases "name ext \<in> extension_symbols s
      \<or> set (entry_points ext) \<inter> extension_symbols s \<noteq> {}")
    case True
    from RegisterSymbols_reject [OF True] Some show ?thesis
      by (cases "RegisterSymbols ext s") (auto simp: RegisterExtension_def emit_def)
  next
    case False
    then have a: "name ext \<notin> extension_symbols s"
      and b: "set (entry_points ext) \<inter> extension_symbols s = {}" by auto
    from RegisterSymbols_accept [OF a b] Some a b show ?thesis
      by (simp add: RegisterExtension_def emit_def namespace_of_def)
  qed
qed

lemma registry_inv_step:
  assumes "registry_inv s"
  shows "registry_inv (RegisterExtension load path s)"
proof -
  from RegisterExtension_cases [of load path s]
  consider (same) "extensions (RegisterExtension load path s) = extensions s"
      "extension_symbols (RegisterExtension load path s) = extension_symbols s"
    | (added) ext where "load path = Some ext" "name ext \<notin> extension_symbols s"
        "set (entry_points ext) \<inter> extension_symbols s = {}"
        "extensions (RegisterExtension load path s) = (extensions s)(name ext \<mapsto> ext)"
        "extension_symbols (RegisterExtension load path s) =
             namespace_of ext \<union> extension_symbols s"
    by blast
  then show ?thesis
  proof cases
    case same
    with assms show ?thesis by (simp add: registry_inv_def)
  next
    case added
    from assms have keys: "\<And>n e. extensions s n = Some e \<Longrightarrow> name e = n"
      and disj: "\<And>n1 e1 n2 e2. extensions s n1 = Some e1 \<Longrightarrow> extensions s n2 = Some e2
          \<Longrightarrow> n1 \<noteq> n2 \<Longrightarrow> namespace_of e1 \<inter> namespace_of e2 = {}"
      and syms: "extension_symbols s = (\<Union>e \<in> ran (extensions s). namespace_of e)"
      by (auto simp: registry_inv_def)
    have sub: "\<And>n e. extensions s n = Some e \<Longrightarrow> namespace_of e \<subseteq> extension_symbols s"
      unfolding syms by (auto simp: ran_def)
    have fresh: "namespace_of ext \<inter> extension_symbols s = {}"
      using added(2,3) by (auto simp: namespace_of_def)
    have nokey: "extensions s (name ext) = None"
    proof (rule ccontr)
      assume "extensions s (name ext) \<noteq> None"
      then obtain e where e: "extensions s (name ext) = Some e" by auto
      from keys [OF e] sub [OF e] have "name ext \<in> extension_symbols s"
        by (auto simp: namespace_of_def)
      with added(2) show False by simp
    qed
    have ran': "ran ((extensions s)(name ext \<mapsto> ext)) = insert ext (ran (extensions s))"
      using nokey by simp
    show ?thesis
      unfolding registry_inv_def added(4,5)
    proof (intro conjI allI impI)
      fix n e assume "((extensions s)(name ext \<mapsto> ext)) n = Some e"
      then show "name e = n" using keys by (auto split: if_splits)
    next
      fix n1 e1 n2 e2
      assume h: "((extensions s)(name ext \<mapsto> ext)) n1 = Some e1 \<and>
        ((extensions s)(name ext \<mapsto> ext)) n2 = Some e2 \<and> n1 \<noteq> n2"
      then show "namespace_of e1 \<inter> namespace_of e2 = {}"
        using disj sub fresh by (auto split: if_splits) blast+
    next
      show "namespace_of ext \<union> extension_symbols s =
        (\<Union>e \<in> ran ((extensions s)(name ext \<mapsto> ext)). namespace_of e)"
        unfolding ran' syms by auto
    qed
  qed
qed

lemma registry_inv_fold:
  "registry_inv s \<Longrightarrow> registry_inv (fold (RegisterExtension load) paths s)"
  by (induction paths arbitrary: s) (auto intro: registry_inv_step)


text \<open>
  C1. Start from a freshly constructed server and process any sequence of paths with
  \<^verbatim>\<open>RegisterExtension\<close>. Afterwards every stored module is stored under its own name;
  two modules stored under different names have different names, the name of one is
  not an entry point of the other, and they share no entry point; the symbol set is
  exactly the names and entry points of the stored modules. Separately, in any server
  state, registering a module whose name or one of whose entry points is already in
  the symbol set leaves the module table, the symbol set and the instance table as
  they were.
\<close>

theorem registry_namespace_unique_and_atomic:
  assumes "s = fold (RegisterExtension load) paths (new_ExtensionServer uuid)"
  shows "(\<forall>n e. extensions s n = Some e \<longrightarrow> name e = n)
    \<and> (\<forall>n1 e1 n2 e2. extensions s n1 = Some e1 \<and> extensions s n2 = Some e2 \<and> n1 \<noteq> n2
          \<longrightarrow> name e1 \<noteq> name e2 \<and> name e1 \<notin> set (entry_points e2)
              \<and> set (entry_points e1) \<inter> set (entry_points e2) = {})
    \<and> extension_symbols s = (\<Union>e \<in> ran (extensions s). namespace_of e)
    \<and> (\<forall>t path ext. load path = Some ext
          \<and> (name ext \<in> extension_symbols t
               \<or> (\<exists>ep \<in> set (entry_points ext). ep \<in> extension_symbols t))
          \<longrightarrow> extensions (RegisterExtension load path t) = extensions t
              \<and> extension_symbols (RegisterExtension load path t) = extension_symbols t
              \<and> instances (RegisterExtension load path t) = instances t)"
proof -
  have inv: "registry_inv s"
    unfolding assms by (rule registry_inv_fold [OF registry_inv_new])
  have atomic: "extensions (RegisterExtension load path t) = extensions t
      \<and> extension_symbols (RegisterExtension load path t) = extension_symbols t
      \<and> instances (RegisterExtension load path t) = instances t"
    if l: "load path = Some ext"
      and c: "name ext \<in> extension_symbols t
               \<or> (\<exists>ep \<in> set (entry_points ext). ep \<in> extension_symbols t)"
    for t path ext
  proof -
    from c have c': "name ext \<in> extension_symbols t
        \<or> set (entry_points ext) \<inter> extension_symbols t \<noteq> {}" by auto
    from RegisterSymbols_reject [OF c'] l show ?thesis
      by (cases "RegisterSymbols ext t") (auto simp: RegisterExtension_def emit_def)
  qed
  have pair: "name e1 \<noteq> name e2 \<and> name e1 \<notin> set (entry_points e2)
      \<and> set (entry_points e1) \<inter> set (entry_points e2) = {}"
    if "extensions s n1 = Some e1" "extensions s n2 = Some e2" "n1 \<noteq> n2" for n1 e1 n2 e2
  proof -
    from inv that have "namespace_of e1 \<inter> namespace_of e2 = {}"
      unfolding registry_inv_def by blast
    then show ?thesis by (auto simp: namespace_of_def)
  qed
  from inv have keys: "\<forall>n e. extensions s n = Some e \<longrightarrow> name e = n"
    and syms: "extension_symbols s = (\<Union>e \<in> ran (extensions s). namespace_of e)"
    by (simp_all add: registry_inv_def)
  show ?thesis
  proof (intro conjI)
    show "\<forall>n e. extensions s n = Some e \<longrightarrow> name e = n" by (rule keys)
    show "extension_symbols s = (\<Union>e \<in> ran (extensions s). namespace_of e)" by (rule syms)
    show "\<forall>n1 e1 n2 e2. extensions s n1 = Some e1 \<and> extensions s n2 = Some e2 \<and> n1 \<noteq> n2
          \<longrightarrow> name e1 \<noteq> name e2 \<and> name e1 \<notin> set (entry_points e2)
              \<and> set (entry_points e1) \<inter> set (entry_points e2) = {}"
      using pair by blast
    show "\<forall>t path ext. load path = Some ext
          \<and> (name ext \<in> extension_symbols t
               \<or> (\<exists>ep \<in> set (entry_points ext). ep \<in> extension_symbols t))
          \<longrightarrow> extensions (RegisterExtension load path t) = extensions t
              \<and> extension_symbols (RegisterExtension load path t) = extension_symbols t
              \<and> instances (RegisterExtension load path t) = instances t"
      using atomic by blast
  qed
qed

theorem registry_namespace_unique_and_atomic_witness:
  "extensions (fold (RegisterExtension sample_loader) sample_paths (new_ExtensionServer ''app''))
       ''geo''
     = Some \<lparr>name = ''geo'', javascript_api = ''system geo'', entry_points = [''geo.locate'']\<rparr>
   \<and> extensions (fold (RegisterExtension sample_loader) sample_paths (new_ExtensionServer ''app''))
       ''cam''
     = Some \<lparr>name = ''cam'', javascript_api = ''system cam'',
              entry_points = [''cam.shot'', ''cam'', ''cam.shot'']\<rparr>
   \<and> name \<lparr>name = ''geo'', javascript_api = ''system geo'', entry_points = [''geo.locate'']\<rparr>
     = ''geo''
   \<and> ''geo'' \<notin> set [''cam.shot'', ''cam'', ''cam.shot'']
   \<and> set [''geo.locate''] \<inter> set [''cam.shot'', ''cam'', ''cam.shot''] = {}
   \<and> sample_loader ''/opt/usr/libmap.so''
     = Some \<lparr>name = ''map'', javascript_api = ''user map'', entry_points = [''geo.locate'']\<rparr>
   \<and> ''geo.locate'' \<in> extension_symbols
        (fold (RegisterExtension sample_loader) sample_paths (new_ExtensionServer ''app''))
   \<and> extensions (RegisterExtension sample_loader ''/opt/usr/libmap.so''
        (fold (RegisterExtension sample_loader) sample_paths (new_ExtensionServer ''app'')))
     = extensions (fold (RegisterExtension sample_loader) sample_paths (new_ExtensionServer ''app''))
   \<and> extension_symbols (RegisterExtension sample_loader ''/opt/usr/libmap.so''
        (fold (RegisterExtension sample_loader) sample_paths (new_ExtensionServer ''app'')))
     = extension_symbols
        (fold (RegisterExtension sample_loader) sample_paths (new_ExtensionServer ''app''))"
proof -
  let ?s = "fold (RegisterExtension sample_loader) sample_paths (new_ExtensionServer ''app'')"
  let ?geo = "\<lparr>name = ''geo'', javascript_api = ''system geo'', entry_points = [''geo.locate'']\<rparr>"
  let ?cam = "\<lparr>name = ''cam'', javascript_api = ''system cam'',
              entry_points = [''cam.shot'', ''cam'', ''cam.shot'']\<rparr>"
  let ?map = "\<lparr>name = ''map'', javascript_api = ''user map'', entry_points = [''geo.locate'']\<rparr>"
  have g: "extensions ?s ''geo'' = Some ?geo"
    by (simp add: RegisterExtension_def RegisterSymbols_def sample_loader_def sample_paths_def
        new_ExtensionServer_def emit_def)
  have c: "extensions ?s ''cam'' = Some ?cam"
    by (simp add: RegisterExtension_def RegisterSymbols_def sample_loader_def sample_paths_def
        new_ExtensionServer_def emit_def)
  have l: "sample_loader ''/opt/usr/libmap.so'' = Some ?map"
    by (simp add: sample_loader_def)
  have m: "''geo.locate'' \<in> extension_symbols ?s"
    by (simp add: RegisterExtension_def RegisterSymbols_def sample_loader_def sample_paths_def
        new_ExtensionServer_def emit_def)
  note T = registry_namespace_unique_and_atomic
    [OF refl, of sample_loader sample_paths "''app''"]
  note pairs = T [THEN conjunct2, THEN conjunct1, THEN spec [of _ "''geo''"],
    THEN spec [of _ ?geo], THEN spec [of _ "''cam''"], THEN spec [of _ ?cam], THEN mp]
  note atomic = T [THEN conjunct2, THEN conjunct2, THEN conjunct2, THEN spec [of _ ?s],
    THEN spec [of _ "''/opt/usr/libmap.so''"], THEN spec [of _ ?map], THEN mp]
  have k: "name ?geo = ''geo''"
    by (rule T [THEN conjunct1, THEN spec, THEN spec, THEN mp, OF g])
  have ne: "''geo'' \<noteq> ''cam''" by simp
  have p: "name ?geo \<noteq> name ?cam \<and> name ?geo \<notin> set (entry_points ?cam)
        \<and> set (entry_points ?geo) \<inter> set (entry_points ?cam) = {}"
    by (rule pairs) (intro conjI g c ne)
  have col: "name ?map \<in> extension_symbols ?s
          \<or> (\<exists>ep \<in> set (entry_points ?map). ep \<in> extension_symbols ?s)"
    using m by simp
  have a: "extensions (RegisterExtension sample_loader ''/opt/usr/libmap.so'' ?s) = extensions ?s
       \<and> extension_symbols (RegisterExtension sample_loader ''/opt/usr/libmap.so'' ?s)
           = extension_symbols ?s
       \<and> instances (RegisterExtension sample_loader ''/opt/usr/libmap.so'' ?s) = instances ?s"
    by (rule atomic) (intro conjI l col)
  from p have p1: "''geo'' \<notin> set [''cam.shot'', ''cam'', ''cam.shot'']"
    and p2: "set [''geo.locate''] \<inter> set [''cam.shot'', ''cam'', ''cam.shot''] = {}"
    by simp_all
  show ?thesis
    by (intro conjI)
      (rule g c k p1 p2 l m a [THEN conjunct1] a [THEN conjunct2, THEN conjunct1])+
qed

section \<open>Properties of the remote operations\<close>

text \<open>
  Firing sinks appends events and at most clears the reply sink of the instance; the
  tables stay as they are.
\<close>

lemma emit_emit: "emit es (emit fs s) = emit (fs @ es) s"
  by (simp add: emit_def)

lemma emit_Nil: "emit [] s = s"
  by (simp add: emit_def)

lemma clear_idle:
  "send_sync_reply_callback inst = None \<Longrightarrow> inst\<lparr>send_sync_reply_callback := None\<rparr> = inst"
  by simp

lemma fire_result:
  "\<exists>es inst'. fire is_closed a (inst, s) = (inst', emit es s)
     \<and> (inst' = inst \<or> inst' = inst\<lparr>send_sync_reply_callback := None\<rparr>)"
proof (cases a)
  case (PostMessageToJS msg)
  show ?thesis
  proof (cases "post_message_callback inst")
    case None
    with PostMessageToJS have "fire is_closed a (inst, s) = (inst, emit [] s)"
      by (simp add: emit_Nil)
    then show ?thesis by blast
  next
    case (Some cb)
    obtain connection instance_id where cb: "cb = (connection, instance_id)"
      by (cases cb)
    show ?thesis
    proof (cases "connection = NULL \<or> is_closed connection")
      case True
      with PostMessageToJS Some cb
      have "fire is_closed a (inst, s) =
          (inst, emit [LOGGER ERROR ''Client connection is closed already.''] s)"
        by (simp add: PostMessageToJSCallback_def)
      then show ?thesis by blast
    next
      case False
      with PostMessageToJS Some cb
      have "fire is_closed a (inst, s) = (inst, emit [SendSignal connection instance_id msg] s)"
        by (simp add: PostMessageToJSCallback_def)
      then show ?thesis by blast
    qed
  qed
next
  case (SyncReplyToJS reply)
  show ?thesis
  proof (cases "send_sync_reply_callback inst")
    case None
    with SyncReplyToJS have "fire is_closed a (inst, s) = (inst, emit [] s)"
      by (simp add: emit_Nil)
    then show ?thesis by blast
  next
    case (Some invocation)
    with SyncReplyToJS
    have "fire is_closed a (inst, s) =
        (inst\<lparr>send_sync_reply_callback := None\<rparr>, emit [return_value invocation (String reply)] s)"
      by (simp add: SyncReplyCallback_def)
    then show ?thesis by blast
  qed
qed

lemma fold_fire_result:
  "\<exists>es inst'. fold (fire is_closed) acts (inst, s) = (inst', emit es s)
     \<and> (inst' = inst \<or> inst' = inst\<lparr>send_sync_reply_callback := None\<rparr>)"
proof (induction acts arbitrary: inst s)
  case Nil
  have "fold (fire is_closed) [] (inst, s) = (inst, emit [] s)" by (simp add: emit_Nil)
  then show ?case by blast
next
  case (Cons a acts)
  obtain es inst1 where a: "fire is_closed a (inst, s) = (inst1, emit es s)"
    and i1: "inst1 = inst \<or> inst1 = inst\<lparr>send_sync_reply_callback := None\<rparr>"
    using fire_result by blast
  obtain fs inst2 where r: "fold (fire is_closed) acts (inst1, emit es s) = (inst2, emit fs (emit es s))"
    and i2: "inst2 = inst1 \<or> inst2 = inst1\<lparr>send_sync_reply_callback := None\<rparr>"
    using Cons.IH by blast
  have "fold (fire is_closed) (a # acts) (inst, s) = (inst2, emit (es @ fs) s)"
    by (simp add: a r emit_emit)
  moreover from i1 i2 have "inst2 = inst \<or> inst2 = inst\<lparr>send_sync_reply_callback := None\<rparr>"
    by auto
  ultimately show ?case by blast
qed

lemma deliver_result:
  "\<exists>es inst'. deliver is_closed acts instance_id inst s =
       emit es (s\<lparr>instances := (instances s)(instance_id \<mapsto> inst')\<rparr>)
     \<and> (inst' = inst \<or> inst' = inst\<lparr>send_sync_reply_callback := None\<rparr>)"
proof -
  obtain es inst' where f: "fold (fire is_closed) acts (inst, s) = (inst', emit es s)"
    and i: "inst' = inst \<or> inst' = inst\<lparr>send_sync_reply_callback := None\<rparr>"
    using fold_fire_result by blast
  have "deliver is_closed acts instance_id inst s =
       emit es (s\<lparr>instances := (instances s)(instance_id \<mapsto> inst')\<rparr>)"
    by (simp add: deliver_def f emit_def)
  with i show ?thesis by blast
qed

lemma store_same:
  "instances s instance_id = Some inst
    \<Longrightarrow> s\<lparr>instances := (instances s)(instance_id \<mapsto> inst)\<rparr> = s"
  by (simp add: map_upd_triv)

lemma deliver_idle:
  assumes "instances s instance_id = Some inst" and "send_sync_reply_callback inst = None"
  shows "\<exists>es. deliver is_closed acts instance_id inst s = emit es s"
proof -
  obtain es inst' where d: "deliver is_closed acts instance_id inst s =
       emit es (s\<lparr>instances := (instances s)(instance_id \<mapsto> inst')\<rparr>)"
    and i: "inst' = inst \<or> inst' = inst\<lparr>send_sync_reply_callback := None\<rparr>"
    using deliver_result by blast
  from i assms(2) have "inst' = inst" by auto
  with d assms(1) have "deliver is_closed acts instance_id inst s = emit es s"
    by (simp add: store_same)
  then show ?thesis ..
qed

lemma deliver_Nil:
  "instances s instance_id = Some inst \<Longrightarrow> deliver is_closed [] instance_id inst s = s"
  by (simp add: deliver_def store_same)

lemma dom_deliver:
  assumes "instance_id \<in> dom (instances s)"
  shows "dom (instances (deliver is_closed acts instance_id inst s)) = dom (instances s)"
proof -
  obtain es inst' where "deliver is_closed acts instance_id inst s =
       emit es (s\<lparr>instances := (instances s)(instance_id \<mapsto> inst')\<rparr>)"
    using deliver_result by blast
  with assms show ?thesis by (auto simp: emit_def)
qed

lemma deliver_other:
  assumes "other \<noteq> instance_id"
  shows "instances (deliver is_closed acts instance_id inst s) other = instances s other"
proof -
  obtain es inst' where "deliver is_closed acts instance_id inst s =
       emit es (s\<lparr>instances := (instances s)(instance_id \<mapsto> inst')\<rparr>)"
    using deliver_result by blast
  with assms show ?thesis by (simp add: emit_def)
qed

lemma instances_emit: "instances (emit es s) = instances s"
  by (simp add: emit_def)







lemma sample_server_geo:
  "extensions sample_server ''geo'' =
     Some \<lparr>name = ''geo'', javascript_api = ''system geo'', entry_points = [''geo.locate'']\<rparr>"
  by (simp add: sample_server_def RegisterExtension_def RegisterSymbols_def sample_loader_def
      sample_paths_def new_ExtensionServer_def emit_def)



lemma sample_server_instances: "instances sample_server = Map.empty"
  by (simp add: sample_server_def RegisterExtension_def RegisterSymbols_def sample_loader_def
      sample_paths_def new_ExtensionServer_def emit_def)

lemma sample_live_eq:
  "sample_live = emit [return_value 12 (String ''id-1'')]
     (sample_server\<lparr>instances := [''id-1'' \<mapsto> sample_instance]\<rparr>)"
  by (simp add: sample_live_def OnCreateInstance_def sample_server_geo sample_env_def
      SetPostMessageCallback_def sample_instance_def sample_server_instances Let_def)

lemma sample_live_instance: "instances sample_live ''id-1'' = Some sample_instance"
  by (simp add: sample_live_eq emit_def)

lemma sample_live_missing: "instances sample_live ''id-2'' = None"
  by (simp add: sample_live_eq emit_def)




text \<open>
  C6. \<^verbatim>\<open>OnDestroyInstance\<close> on a live id deletes the instance, erases the id from the
  instance table (every other id keeps its instance) and replies with the same id. On
  an id that is not in the table it replies with the error ``Not found instance'' and
  the instance table is unchanged.
\<close>

theorem destroy_instance_outcomes:
  "(instances s instance_id = Some inst \<longrightarrow>
      OnDestroyInstance instance_id invocation s =
        emit [delete_ExtensionInstance inst,
              return_value invocation (String instance_id)]
          (s\<lparr>instances := (instances s)(instance_id := None)\<rparr>)
      \<and> instances (OnDestroyInstance instance_id invocation s) instance_id = None
      \<and> (\<forall>other. other \<noteq> instance_id \<longrightarrow>
            instances (OnDestroyInstance instance_id invocation s) other = instances s other))
   \<and> (instances s instance_id = None \<longrightarrow>
      OnDestroyInstance instance_id invocation s =
        emit [LOGGER ERROR (''Failed to find instance '' @ quoted instance_id),
              return_error invocation (''Not found instance '' @ instance_id)] s
      \<and> instances (OnDestroyInstance instance_id invocation s) = instances s)"
  by (simp add: OnDestroyInstance_def emit_def)

theorem destroy_instance_outcomes_witness:
  "OnDestroyInstance ''id-1'' 13 sample_live =
     emit [delete_ExtensionInstance sample_instance, return_value 13 (String ''id-1'')]
       (sample_live\<lparr>instances := (instances sample_live)(''id-1'' := None)\<rparr>)
   \<and> instances (OnDestroyInstance ''id-1'' 13 sample_live) ''id-1'' = None
   \<and> OnDestroyInstance ''id-2'' 14 sample_live =
     emit [LOGGER ERROR (''Failed to find instance '' @ quoted ''id-2''),
           return_error 14 ''Not found instance id-2''] sample_live
   \<and> instances (OnDestroyInstance ''id-2'' 14 sample_live) = instances sample_live"
proof -
  note live = destroy_instance_outcomes [where s = sample_live and instance_id = "''id-1''"
      and invocation = 13 and inst = sample_instance,
      THEN conjunct1, THEN mp, OF sample_live_instance]
  note missing = destroy_instance_outcomes [where s = sample_live
      and instance_id = "''id-2''" and invocation = 14,
      THEN conjunct2, THEN mp, OF sample_live_missing]
  have m: "OnDestroyInstance ''id-2'' 14 sample_live =
     emit [LOGGER ERROR (''Failed to find instance '' @ quoted ''id-2''),
           return_error 14 ''Not found instance id-2''] sample_live"
    using missing [THEN conjunct1] by simp
  show ?thesis
    by (intro conjI)
      (rule live [THEN conjunct1] live [THEN conjunct2, THEN conjunct1] m
         missing [THEN conjunct2])+
qed

text \<open>
  C3. \<^verbatim>\<open>OnSendSyncMessage\<close> on a live instance whose native handler does one thing,
  reply with the string \<open>reply\<close>, hands the message to \<^verbatim>\<open>HandleSyncMessage\<close> and
  returns exactly \<open>reply\<close> on the caller's invocation; the events of the call hold no
  \<^verbatim>\<open>OnMessageToJS\<close> signal. On an id that is not in the instance table the reply is the
  error ``Not found instance''.
\<close>

theorem send_sync_message_round_trip:
  "(instances s instance_id = Some inst \<and> native env = [SyncReplyToJS reply] \<longrightarrow>
      trace (OnSendSyncMessage env instance_id msg invocation s) =
        trace s @ [HandleSyncMessage (inst\<lparr>send_sync_reply_callback := Some invocation\<rparr>) msg,
                   return_value invocation (String reply)]
      \<and> (\<forall>connection i m. SendSignal connection i m \<notin>
            set (drop (length (trace s))
                   (trace (OnSendSyncMessage env instance_id msg invocation s)))))
   \<and> (instances s instance_id = None \<longrightarrow>
      OnSendSyncMessage env instance_id msg invocation s =
        emit [LOGGER ERROR (''Failed to find instance '' @ quoted instance_id),
              return_error invocation (''Not found instance '' @ instance_id)] s)"
  by (simp add: OnSendSyncMessage_def SetSendSyncReplyCallback_def SyncReplyCallback_def
      deliver_def emit_def Let_def)

theorem send_sync_message_round_trip_witness:
  "trace (OnSendSyncMessage sample_env ''id-1'' ''ping'' 15 sample_live) =
     trace sample_live @
       [HandleSyncMessage (sample_instance\<lparr>send_sync_reply_callback := Some 15\<rparr>) ''ping'',
        return_value 15 (String ''pong'')]
   \<and> SendSignal (Connection 1) ''id-1'' ''pong'' \<notin>
       set (drop (length (trace sample_live))
              (trace (OnSendSyncMessage sample_env ''id-1'' ''ping'' 15 sample_live)))
   \<and> OnSendSyncMessage sample_env ''id-2'' ''ping'' 16 sample_live =
     emit [LOGGER ERROR (''Failed to find instance '' @ quoted ''id-2''),
           return_error 16 ''Not found instance id-2''] sample_live"
proof -
  have n: "native sample_env = [SyncReplyToJS ''pong'']"
    by (simp add: sample_env_def)
  note live = send_sync_message_round_trip [where s = sample_live
      and instance_id = "''id-1''" and inst = sample_instance and env = sample_env
      and reply = "''pong''" and msg = "''ping''" and invocation = 15,
      THEN conjunct1, THEN mp, OF conjI, OF sample_live_instance n]
  note missing = send_sync_message_round_trip [where s = sample_live
      and instance_id = "''id-2''" and env = sample_env and msg = "''ping''"
      and invocation = 16,
      THEN conjunct2, THEN mp, OF sample_live_missing]
  have m: "OnSendSyncMessage sample_env ''id-2'' ''ping'' 16 sample_live =
     emit [LOGGER ERROR (''Failed to find instance '' @ quoted ''id-2''),
           return_error 16 ''Not found instance id-2''] sample_live"
    using missing by simp
  show ?thesis
    by (intro conjI)
      (rule live [THEN conjunct1]
         live [THEN conjunct2, THEN spec, THEN spec, THEN spec] m)+
qed

text \<open>
  C7. \<^verbatim>\<open>OnPostMessage\<close> on an id that is not in the instance table appends one log line
  and nothing else: no reply, no error reply, no change of a table. On a live id the
  message is handed to \<^verbatim>\<open>HandleMessage\<close> of that instance; whatever follows in the
  trace is what the native handler fired, and the only entry of a table that can
  differ afterwards is the reply sink of this instance, cleared when the handler fired
  it. For an instance with no reply pending the tables are unchanged. When the
  handler fires nothing, the delivery is the only event: the server waits for no
  response.
\<close>

theorem post_message_outcomes:
  "(instances s instance_id = None \<longrightarrow>
      OnPostMessage env instance_id msg s =
        emit [LOGGER ERROR (''Failed to find instance '' @ quoted instance_id)] s)
   \<and> (instances s instance_id = Some inst \<longrightarrow>
      (\<exists>es inst'. OnPostMessage env instance_id msg s =
           emit (HandleMessage inst msg # es)
             (s\<lparr>instances := (instances s)(instance_id \<mapsto> inst')\<rparr>)
         \<and> (inst' = inst \<or> inst' = inst\<lparr>send_sync_reply_callback := None\<rparr>))
      \<and> (send_sync_reply_callback inst = None \<longrightarrow>
            (\<exists>es. OnPostMessage env instance_id msg s = emit (HandleMessage inst msg # es) s))
      \<and> (native env = [] \<longrightarrow>
            OnPostMessage env instance_id msg s = emit [HandleMessage inst msg] s))"
proof (intro conjI impI)
  assume "instances s instance_id = None"
  then show "OnPostMessage env instance_id msg s =
        emit [LOGGER ERROR (''Failed to find instance '' @ quoted instance_id)] s"
    by (simp add: OnPostMessage_def)
next
  assume live: "instances s instance_id = Some inst"
  let ?s1 = "emit [HandleMessage inst msg] s"
  obtain es inst' where d: "deliver (g_dbus_connection_is_closed env) (native env) instance_id
        inst ?s1 = emit es (?s1\<lparr>instances := (instances ?s1)(instance_id \<mapsto> inst')\<rparr>)"
    and i: "inst' = inst \<or> inst' = inst\<lparr>send_sync_reply_callback := None\<rparr>"
    using deliver_result by blast
  from live d have "OnPostMessage env instance_id msg s =
      emit (HandleMessage inst msg # es) (s\<lparr>instances := (instances s)(instance_id \<mapsto> inst')\<rparr>)"
    by (simp add: OnPostMessage_def emit_def)
  with i show "\<exists>es inst'. OnPostMessage env instance_id msg s =
           emit (HandleMessage inst msg # es)
             (s\<lparr>instances := (instances s)(instance_id \<mapsto> inst')\<rparr>)
         \<and> (inst' = inst \<or> inst' = inst\<lparr>send_sync_reply_callback := None\<rparr>)"
    by blast
next
  assume live: "instances s instance_id = Some inst"
    and idle: "send_sync_reply_callback inst = None"
  let ?s1 = "emit [HandleMessage inst msg] s"
  from live have live1: "instances ?s1 instance_id = Some inst" by (simp add: emit_def)
  obtain es where "deliver (g_dbus_connection_is_closed env) (native env) instance_id
        inst ?s1 = emit es ?s1"
    using deliver_idle [OF live1 idle] by blast
  with live have "OnPostMessage env instance_id msg s = emit (HandleMessage inst msg # es) s"
    by (simp add: OnPostMessage_def emit_emit)
  then show "\<exists>es. OnPostMessage env instance_id msg s = emit (HandleMessage inst msg # es) s" ..
next
  assume live: "instances s instance_id = Some inst" and "native env = []"
  moreover from live have "instances (emit [HandleMessage inst msg] s) instance_id = Some inst"
    by (simp add: emit_def)
  ultimately show "OnPostMessage env instance_id msg s = emit [HandleMessage inst msg] s"
    by (simp add: OnPostMessage_def deliver_Nil)
qed

theorem post_message_outcomes_witness:
  "OnPostMessage sample_env ''id-2'' ''x'' sample_live =
     emit [LOGGER ERROR (''Failed to find instance '' @ quoted ''id-2'')] sample_live
   \<and> (\<exists>es. OnPostMessage sample_env ''id-1'' ''x'' sample_live =
         emit (HandleMessage sample_instance ''x'' # es) sample_live)
   \<and> OnPostMessage (sample_env\<lparr>native := []\<rparr>) ''id-1'' ''x'' sample_live =
     emit [HandleMessage sample_instance ''x''] sample_live"
proof -
  have n: "native (sample_env\<lparr>native := []\<rparr>) = []" by simp
  have idle: "send_sync_reply_callback sample_instance = None"
    by (simp add: sample_instance_def)
  note missing = post_message_outcomes [where s = sample_live
      and instance_id = "''id-2''" and env = sample_env and msg = "''x''",
      THEN conjunct1, THEN mp, OF sample_live_missing]
  note pending = post_message_outcomes [where s = sample_live
      and instance_id = "''id-1''" and env = sample_env and msg = "''x''"
      and inst = sample_instance,
      THEN conjunct2, THEN mp, OF sample_live_instance, THEN conjunct2, THEN conjunct1,
      THEN mp, OF idle]
  note live = post_message_outcomes [where s = sample_live
      and instance_id = "''id-1''" and env = "sample_env\<lparr>native := []\<rparr>" and msg = "''x''"
      and inst = sample_instance,
      THEN conjunct2, THEN mp, OF sample_live_instance, THEN conjunct2, THEN conjunct2,
      THEN mp, OF n]
  show ?thesis
    by (intro conjI) (rule missing pending live)+
qed

section \<open>Properties of startup and discovery\<close>

lemma Start_connected:
  assumes "ConnectByName env (app_uuid s @ ''.'' @ kDBusNameForApplication env)"
  shows "Start env paths s =
    (True, emit [dbus_server_Start
                   (app_uuid (fold (register_existing env) paths
                      (RegisterSystemExtensions env s)) @ ''.'' @ kDBusNameForExtension env),
                 NotifyEPCreated]
       (fold (register_existing env) paths (RegisterSystemExtensions env s)))"
  using assms by (simp add: Start_def Let_def)

lemma RegisterExtension_app_uuid:
  "app_uuid (RegisterExtension load path s) = app_uuid s"
  by (simp add: RegisterExtension_def RegisterSymbols_def emit_def
      split: option.splits prod.splits bool.splits)

lemma fold_RegisterExtension_app_uuid:
  "app_uuid (fold (RegisterExtension load) paths s) = app_uuid s"
  by (induction paths arbitrary: s) (simp_all add: RegisterExtension_app_uuid)

lemma fold_register_existing_app_uuid:
  "app_uuid (fold (register_existing env) paths s) = app_uuid s"
  by (induction paths arbitrary: s)
    (simp_all add: register_existing_def RegisterExtension_app_uuid)

lemma discovery_app_uuid:
  "app_uuid (fold (register_existing env) paths (RegisterSystemExtensions env s)) = app_uuid s"
  by (simp add: fold_register_existing_app_uuid RegisterSystemExtensions_def
      fold_RegisterExtension_app_uuid)

text \<open>
  C9. \<^verbatim>\<open>Start\<close> returns what \<^verbatim>\<open>ConnectByName\<close> returned. When the connection fails, the
  only effect is one error log line: nothing is registered and the server's endpoint
  is not started. When the connection succeeds, \<^verbatim>\<open>Start\<close> returns true whatever the
  file system holds and whatever the loader does with each path (it may fail on every
  one), and the endpoint is started under the application's id.
\<close>

theorem start_fails_only_without_connection:
  "fst (Start env paths s) =
      ConnectByName env (app_uuid s @ ''.'' @ kDBusNameForApplication env)
   \<and> (\<not> ConnectByName env (app_uuid s @ ''.'' @ kDBusNameForApplication env) \<longrightarrow>
        snd (Start env paths s) =
          emit [LOGGER ERROR ''Failed to connect to the dbus server for Application.''] s)
   \<and> (ConnectByName env (app_uuid s @ ''.'' @ kDBusNameForApplication env) \<longrightarrow>
        fst (Start (env\<lparr>glob := any_glob, Exists := any_exists, Initialize := any_loader\<rparr>)
               any_paths s) = True
        \<and> dbus_server_Start (app_uuid s @ ''.'' @ kDBusNameForExtension env)
             \<in> set (trace (snd (Start env paths s))))"
proof (intro conjI impI)
  show "fst (Start env paths s) =
      ConnectByName env (app_uuid s @ ''.'' @ kDBusNameForApplication env)"
    by (simp add: Start_def Let_def)
next
  assume "\<not> ConnectByName env (app_uuid s @ ''.'' @ kDBusNameForApplication env)"
  then show "snd (Start env paths s) =
          emit [LOGGER ERROR ''Failed to connect to the dbus server for Application.''] s"
    by (simp add: Start_def)
next
  assume "ConnectByName env (app_uuid s @ ''.'' @ kDBusNameForApplication env)"
  then show "fst (Start (env\<lparr>glob := any_glob, Exists := any_exists,
      Initialize := any_loader\<rparr>) any_paths s) = True"
    by (simp add: Start_def Let_def)
next
  assume c: "ConnectByName env (app_uuid s @ ''.'' @ kDBusNameForApplication env)"
  show "dbus_server_Start (app_uuid s @ ''.'' @ kDBusNameForExtension env)
      \<in> set (trace (snd (Start env paths s)))"
    unfolding Start_connected [OF c] discovery_app_uuid by (simp add: emit_def)
qed

theorem start_fails_only_without_connection_witness:
  "fst (Start (sample_environment\<lparr>ConnectByName := (\<lambda>bus_name. False)\<rparr>) sample_paths
          (new_ExtensionServer ''app'')) = False
   \<and> snd (Start (sample_environment\<lparr>ConnectByName := (\<lambda>bus_name. False)\<rparr>) sample_paths
          (new_ExtensionServer ''app''))
     = emit [LOGGER ERROR ''Failed to connect to the dbus server for Application.'']
         (new_ExtensionServer ''app'')
   \<and> fst (Start sample_environment sample_paths (new_ExtensionServer ''app'')) = True
   \<and> fst (Start (sample_environment\<lparr>glob := (\<lambda>pattern. [''/nowhere/libx.so'']),
                   Exists := (\<lambda>path. True), Initialize := (\<lambda>path. None)\<rparr>)
            [''/nowhere/liby.so''] (new_ExtensionServer ''app'')) = True"
proof -
  let ?down = "sample_environment\<lparr>ConnectByName := (\<lambda>bus_name. False)\<rparr>"
  let ?s = "new_ExtensionServer ''app''"
  have down: "\<not> ConnectByName ?down (app_uuid ?s @ ''.'' @ kDBusNameForApplication ?down)"
    by simp
  have up: "ConnectByName sample_environment
      (app_uuid ?s @ ''.'' @ kDBusNameForApplication sample_environment)"
    by (simp add: sample_environment_def new_ExtensionServer_def)
  note D = start_fails_only_without_connection [where env = ?down and s = ?s
      and paths = sample_paths]
  note U = start_fails_only_without_connection [where env = sample_environment and s = ?s
      and paths = sample_paths]
  have a: "fst (Start ?down sample_paths ?s) = False"
    using D [THEN conjunct1] down by simp
  have b: "snd (Start ?down sample_paths ?s)
     = emit [LOGGER ERROR ''Failed to connect to the dbus server for Application.''] ?s"
    by (rule D [THEN conjunct2, THEN conjunct1, THEN mp, OF down])
  have c: "fst (Start sample_environment sample_paths ?s) = True"
    using U [THEN conjunct1] up by simp
  have d: "fst (Start (sample_environment\<lparr>glob := (\<lambda>pattern. [''/nowhere/libx.so'']),
                   Exists := (\<lambda>path. True), Initialize := (\<lambda>path. None)\<rparr>)
            [''/nowhere/liby.so''] ?s) = True"
    by (rule U [THEN conjunct2, THEN conjunct2, THEN mp, OF up, THEN conjunct1])
  show ?thesis
    by (intro conjI) (rule a b c d)+
qed

lemma registry_inv_symbols:
  assumes "registry_inv s" and "extensions s n = Some e"
  shows "name e = n" and "n \<in> extension_symbols s"
proof -
  from assms show n: "name e = n" by (simp add: registry_inv_def)
  from assms(2) have "e \<in> ran (extensions s)" by (auto simp: ran_def)
  moreover from assms(1)
  have "extension_symbols s = (\<Union>e \<in> ran (extensions s). namespace_of e)"
    by (simp add: registry_inv_def)
  ultimately have "name e \<in> extension_symbols s"
    by (auto simp: namespace_of_def)
  with n show "n \<in> extension_symbols s" by simp
qed

lemma RegisterExtension_keeps:
  assumes "registry_inv s" and "extensions s n = Some e"
  shows "extensions (RegisterExtension load path s) n = Some e"
proof -
  from registry_inv_symbols [OF assms] have n: "n \<in> extension_symbols s" by simp
  from RegisterExtension_cases [of load path s] show ?thesis
  proof (elim disjE exE conjE)
    assume "extensions (RegisterExtension load path s) = extensions s"
    with assms(2) show ?thesis by simp
  next
    fix ext
    assume "name ext \<notin> extension_symbols s"
      and "extensions (RegisterExtension load path s) = (extensions s)(name ext \<mapsto> ext)"
    with n assms(2) show ?thesis by auto
  qed
qed

lemma registry_inv_register_existing:
  "registry_inv s \<Longrightarrow> registry_inv (register_existing env path s)"
  by (simp add: register_existing_def registry_inv_step)

lemma registry_inv_fold_existing:
  "registry_inv s \<Longrightarrow> registry_inv (fold (register_existing env) paths s)"
  by (induction paths arbitrary: s) (simp_all add: registry_inv_register_existing)

lemma register_existing_keeps:
  "registry_inv s \<Longrightarrow> extensions s n = Some e
    \<Longrightarrow> extensions (register_existing env path s) n = Some e"
  by (simp add: register_existing_def RegisterExtension_keeps)

lemma fold_register_existing_keeps:
  "registry_inv s \<Longrightarrow> extensions s n = Some e
    \<Longrightarrow> extensions (fold (register_existing env) paths s) n = Some e"
proof (induction paths arbitrary: s)
  case Nil
  then show ?case by simp
next
  case (Cons path paths)
  from Cons.prems have "registry_inv (register_existing env path s)"
    and "extensions (register_existing env path s) n = Some e"
    by (simp_all add: registry_inv_register_existing register_existing_keeps)
  then show ?case using Cons.IH by simp
qed

lemma RegisterExtension_origin:
  assumes "extensions (RegisterExtension load path s) n = Some e"
  shows "extensions s n = Some e \<or> load path = Some e"
  using RegisterExtension_cases [of load path s] assms
  by (auto split: if_splits)

lemma fold_RegisterExtension_origin:
  "extensions (fold (RegisterExtension load) paths s) n = Some e
    \<Longrightarrow> extensions s n = Some e \<or> (\<exists>path \<in> set paths. load path = Some e)"
proof (induction paths arbitrary: s)
  case Nil
  then show ?case by simp
next
  case (Cons path paths)
  from Cons.prems have "extensions (fold (RegisterExtension load) paths
      (RegisterExtension load path s)) n = Some e" by simp
  from Cons.IH [OF this] show ?case
    using RegisterExtension_origin [of load path s n e] by auto
qed

text \<open>
  C5, as stated, fails: a system-directory module that is itself rejected (its entry
  point is taken by an earlier system module) leaves its name free, and the
  caller-supplied module of the same name is then registered.
\<close>

theorem system_precedence_counterexample:
  "Initialize shadow_environment ''/usr/lib/tizen-extensions/libb.so''
     = Some \<lparr>name = ''A'', javascript_api = ''system A'', entry_points = [''shared'']\<rparr>
   \<and> ''/usr/lib/tizen-extensions/libb.so''
       \<in> set (glob shadow_environment
                (EXTENSION_PATH shadow_environment @ ''/'' @ kExtensionPrefix @ ''*''
                   @ kExtensionSuffix))
   \<and> Exists shadow_environment ''/opt/usr/libA.so''
   \<and> Initialize shadow_environment ''/opt/usr/libA.so''
     = Some \<lparr>name = ''A'', javascript_api = ''user A'', entry_points = []\<rparr>
   \<and> extensions (snd (Start shadow_environment [''/opt/usr/libA.so'']
                        (new_ExtensionServer ''app''))) ''A''
     = Some \<lparr>name = ''A'', javascript_api = ''user A'', entry_points = []\<rparr>"
  by (simp add: shadow_environment_def sample_environment_def shadow_loader_def
      kExtensionPrefix_def kExtensionSuffix_def Start_def RegisterSystemExtensions_def
      register_existing_def RegisterExtension_def RegisterSymbols_def
      new_ExtensionServer_def emit_def)

text \<open>
  C5, amended. \<^verbatim>\<open>Start\<close> registers the system directory before the caller's paths.
  A module that is in the table under the name \<open>A\<close> when the system directory has
  been processed was loaded from a path of the system directory, and it is still the
  module stored under \<open>A\<close> when \<^verbatim>\<open>Start\<close> returns. Every caller-supplied path that
  loads a module named \<open>A\<close> is rejected when its turn comes: registering it leaves the
  module table and the symbol set unchanged.
\<close>

theorem admitted_system_extension_takes_precedence:
  assumes "ConnectByName env (uuid @ ''.'' @ kDBusNameForApplication env)"
    and "extensions (RegisterSystemExtensions env (new_ExtensionServer uuid)) A = Some e"
  shows "extensions (snd (Start env paths (new_ExtensionServer uuid))) A = Some e
    \<and> name e = A
    \<and> (\<exists>path \<in> set (glob env (EXTENSION_PATH env @ ''/'' @ kExtensionPrefix @ ''*''
                                  @ kExtensionSuffix)).
          Initialize env path = Some e)
    \<and> (\<forall>pre path post x.
          paths = pre @ path # post \<and> Exists env path \<and> Initialize env path = Some x
            \<and> name x = A \<longrightarrow>
          extensions (RegisterExtension (Initialize env) path
              (fold (register_existing env) pre
                 (RegisterSystemExtensions env (new_ExtensionServer uuid))))
            = extensions (fold (register_existing env) pre
                 (RegisterSystemExtensions env (new_ExtensionServer uuid)))
          \<and> extension_symbols (RegisterExtension (Initialize env) path
              (fold (register_existing env) pre
                 (RegisterSystemExtensions env (new_ExtensionServer uuid))))
            = extension_symbols (fold (register_existing env) pre
                 (RegisterSystemExtensions env (new_ExtensionServer uuid))))"
proof -
  let ?new = "new_ExtensionServer uuid"
  let ?sys = "RegisterSystemExtensions env ?new"
  have inv_sys: "registry_inv ?sys"
    unfolding RegisterSystemExtensions_def Let_def
    by (rule registry_inv_fold [OF registry_inv_new])
  have c: "ConnectByName env (app_uuid ?new @ ''.'' @ kDBusNameForApplication env)"
    using assms(1) by (simp add: new_ExtensionServer_def)
  have final: "extensions (snd (Start env paths ?new)) A = Some e"
    unfolding Start_connected [OF c]
    using fold_register_existing_keeps [OF inv_sys assms(2)] by (simp add: emit_def)
  have nm: "name e = A"
    by (rule registry_inv_symbols(1) [OF inv_sys assms(2)])
  have origin: "\<exists>path \<in> set (glob env (EXTENSION_PATH env @ ''/'' @ kExtensionPrefix @ ''*''
                                  @ kExtensionSuffix)). Initialize env path = Some e"
    using fold_RegisterExtension_origin [of "Initialize env" _ ?new A e] assms(2)
    by (simp add: RegisterSystemExtensions_def Let_def new_ExtensionServer_def)
  have rejected: "extensions (RegisterExtension (Initialize env) path
              (fold (register_existing env) pre ?sys))
            = extensions (fold (register_existing env) pre ?sys)
          \<and> extension_symbols (RegisterExtension (Initialize env) path
              (fold (register_existing env) pre ?sys))
            = extension_symbols (fold (register_existing env) pre ?sys)"
    if x: "Initialize env path = Some x" "name x = A" for pre path x
  proof -
    let ?t = "fold (register_existing env) pre ?sys"
    have "registry_inv ?t" by (rule registry_inv_fold_existing [OF inv_sys])
    moreover have "extensions ?t A = Some e"
      by (rule fold_register_existing_keeps [OF inv_sys assms(2)])
    ultimately have "A \<in> extension_symbols ?t"
      by (rule registry_inv_symbols(2))
    with x have col: "name x \<in> extension_symbols ?t
        \<or> set (entry_points x) \<inter> extension_symbols ?t \<noteq> {}" by simp
    from RegisterSymbols_reject [OF col] x(1) show ?thesis
      by (cases "RegisterSymbols x ?t") (auto simp: RegisterExtension_def emit_def)
  qed
  show ?thesis
  proof (intro conjI allI impI)
    show "extensions (snd (Start env paths ?new)) A = Some e" by (rule final)
    show "name e = A" by (rule nm)
    show "\<exists>path \<in> set (glob env (EXTENSION_PATH env @ ''/'' @ kExtensionPrefix @ ''*''
                                  @ kExtensionSuffix)). Initialize env path = Some e"
      by (rule origin)
  next
    fix pre path post x
    assume "paths = pre @ path # post \<and> Exists env path \<and> Initialize env path = Some x
            \<and> name x = A"
    then have x: "Initialize env path = Some x" "name x = A" by simp_all
    from rejected [OF x]
    show "extensions (RegisterExtension (Initialize env) path
              (fold (register_existing env) pre ?sys))
            = extensions (fold (register_existing env) pre ?sys)"
      and "extension_symbols (RegisterExtension (Initialize env) path
              (fold (register_existing env) pre ?sys))
            = extension_symbols (fold (register_existing env) pre ?sys)"
      by simp_all
  qed
qed

theorem admitted_system_extension_takes_precedence_witness:
  "extensions (RegisterSystemExtensions sample_environment (new_ExtensionServer ''app'')) ''geo''
     = Some \<lparr>name = ''geo'', javascript_api = ''system geo'', entry_points = [''geo.locate'']\<rparr>
   \<and> Initialize sample_environment ''/opt/usr/libgeo.so''
     = Some \<lparr>name = ''geo'', javascript_api = ''user geo'', entry_points = []\<rparr>
   \<and> extensions (snd (Start sample_environment [''/nowhere/libx.so'', ''/opt/usr/libgeo.so'']
                        (new_ExtensionServer ''app''))) ''geo''
     = Some \<lparr>name = ''geo'', javascript_api = ''system geo'', entry_points = [''geo.locate'']\<rparr>
   \<and> extensions (RegisterExtension (Initialize sample_environment) ''/opt/usr/libgeo.so''
         (fold (register_existing sample_environment) [''/nowhere/libx.so'']
            (RegisterSystemExtensions sample_environment (new_ExtensionServer ''app''))))
     = extensions (fold (register_existing sample_environment) [''/nowhere/libx.so'']
            (RegisterSystemExtensions sample_environment (new_ExtensionServer ''app'')))"
proof -
  let ?geo = "\<lparr>name = ''geo'', javascript_api = ''system geo'', entry_points = [''geo.locate'']\<rparr>"
  let ?user = "\<lparr>name = ''geo'', javascript_api = ''user geo'', entry_points = []\<rparr>"
  let ?paths = "[''/nowhere/libx.so'', ''/opt/usr/libgeo.so'']"
  have c: "ConnectByName sample_environment
      (''app'' @ ''.'' @ kDBusNameForApplication sample_environment)"
    by (simp add: sample_environment_def)
  have sys: "extensions (RegisterSystemExtensions sample_environment
      (new_ExtensionServer ''app'')) ''geo'' = Some ?geo"
    by (simp add: sample_environment_def sample_loader_def
      kExtensionPrefix_def kExtensionSuffix_def RegisterSystemExtensions_def
      RegisterExtension_def RegisterSymbols_def new_ExtensionServer_def emit_def)
  have ex: "Exists sample_environment ''/opt/usr/libgeo.so''"
    by (simp add: sample_environment_def)
  have user: "Initialize sample_environment ''/opt/usr/libgeo.so'' = Some ?user"
    by (simp add: sample_environment_def sample_loader_def)
  have split: "?paths = [''/nowhere/libx.so''] @ ''/opt/usr/libgeo.so'' # []" by simp
  have nm: "name ?user = ''geo''" by simp
  note T = admitted_system_extension_takes_precedence [where env = sample_environment
      and uuid = "''app''" and A = "''geo''" and e = ?geo and paths = ?paths, OF c sys]
  note R = T [THEN conjunct2, THEN conjunct2, THEN conjunct2,
      THEN spec [of _ "[''/nowhere/libx.so'']"], THEN spec [of _ "''/opt/usr/libgeo.so''"],
      THEN spec [of _ "[]"], THEN spec [of _ ?user], THEN mp, THEN conjunct1]
  have r: "extensions (RegisterExtension (Initialize sample_environment) ''/opt/usr/libgeo.so''
         (fold (register_existing sample_environment) [''/nowhere/libx.so'']
            (RegisterSystemExtensions sample_environment (new_ExtensionServer ''app''))))
     = extensions (fold (register_existing sample_environment) [''/nowhere/libx.so'']
            (RegisterSystemExtensions sample_environment (new_ExtensionServer ''app'')))"
    by (rule R) (intro conjI split ex user nm)
  show ?thesis
    by (intro conjI) (rule sys user T [THEN conjunct1] r)+
qed

section \<open>Properties of sequences of method calls\<close>

lemma generated_append: "generated (xs @ ys) = generated xs @ generated ys"
  by (induction xs rule: generated.induct) simp_all

lemma run_append: "run (xs @ ys) s = run ys (run xs s)"
  by (simp add: run_def)

lemma run_Cons: "run (c # cs) s = run cs (dispatch c s)"
  by (simp add: run_def)

lemma OnCreateInstance_dom:
  "dom (instances (OnCreateInstance env connection extension_name invocation s))
     \<subseteq> insert (GenerateUUID env) (dom (instances s))"
  by (auto simp: OnCreateInstance_def Let_def emit_def split: option.splits if_splits)

lemma OnDestroyInstance_dom:
  "dom (instances (OnDestroyInstance instance_id invocation s)) \<subseteq> dom (instances s)"
  by (auto simp: OnDestroyInstance_def emit_def split: option.splits if_splits)

lemma OnSendSyncMessage_dom:
  "dom (instances (OnSendSyncMessage env instance_id msg invocation s)) \<subseteq> dom (instances s)"
proof (cases "instances s instance_id")
  case None
  then show ?thesis by (simp add: OnSendSyncMessage_def instances_emit)
next
  case (Some inst)
  let ?i = "SetSendSyncReplyCallback invocation inst"
  let ?s1 = "emit [HandleSyncMessage ?i msg]
      (s\<lparr>instances := (instances s)(instance_id \<mapsto> ?i)\<rparr>)"
  have "instance_id \<in> dom (instances ?s1)" by (simp add: emit_def)
  from dom_deliver [OF this]
  have "dom (instances (deliver (g_dbus_connection_is_closed env) (native env) instance_id
      ?i ?s1)) = dom (instances ?s1)" .
  with Some show ?thesis
    by (auto simp: OnSendSyncMessage_def Let_def emit_def)
qed

lemma OnPostMessage_dom:
  "dom (instances (OnPostMessage env instance_id msg s)) = dom (instances s)"
proof (cases "instances s instance_id")
  case None
  then show ?thesis by (simp add: OnPostMessage_def instances_emit)
next
  case (Some inst)
  let ?s1 = "emit [HandleMessage inst msg] s"
  from Some have "instance_id \<in> dom (instances ?s1)" by (auto simp: emit_def)
  from dom_deliver [OF this]
  have "dom (instances (deliver (g_dbus_connection_is_closed env) (native env) instance_id
      inst ?s1)) = dom (instances ?s1)" .
  with Some show ?thesis
    by (simp add: OnPostMessage_def emit_def)
qed

lemma dispatch_dom:
  "dom (instances (dispatch c s)) \<subseteq> dom (instances s) \<union> set (generated [c])"
proof -
  obtain env connection m invocation where c: "c = (env, connection, m, invocation)"
    by (cases c)
  show ?thesis
  proof (cases m)
    case kMethodGetExtensions
    with c show ?thesis by (simp add: dispatch_def OnGetExtensions_def instances_emit)
  next
    case (kMethodCreateInstance extension_name)
    with c show ?thesis
      using OnCreateInstance_dom [of env connection extension_name invocation s]
      by (auto simp: dispatch_def)
  next
    case (kMethodDestroyInstance instance_id)
    with c show ?thesis
      using OnDestroyInstance_dom [of instance_id invocation s]
      by (auto simp: dispatch_def)
  next
    case (kMethodSendSyncMessage instance_id msg)
    with c show ?thesis
      using OnSendSyncMessage_dom [of env instance_id msg invocation s]
      by (auto simp: dispatch_def)
  next
    case (kMethodPostMessage instance_id msg)
    with c show ?thesis by (simp add: dispatch_def OnPostMessage_dom)
  next
    case (other_method x)
    with c show ?thesis by (simp add: dispatch_def)
  qed
qed

lemma run_dom: "dom (instances (run cs s)) \<subseteq> dom (instances s) \<union> set (generated cs)"
proof (induction cs arbitrary: s)
  case Nil
  show ?case by (simp add: run_def)
next
  case (Cons c cs)
  have "generated (c # cs) = generated [c] @ generated cs"
    using generated_append [of "[c]" cs] by simp
  then show ?case
    using Cons.IH [of "dispatch c s"] dispatch_dom [of c s] by (auto simp: run_Cons)
qed

lemma destroy_erases:
  "instances (OnDestroyInstance instance_id invocation s) instance_id = None"
  by (simp add: OnDestroyInstance_def emit_def split: option.splits)

lemma rejected_when_not_live:
  assumes "instances t i = None"
  shows "OnDestroyInstance i invocation t =
       emit [LOGGER ERROR (''Failed to find instance '' @ quoted i),
             return_error invocation (''Not found instance '' @ i)] t"
    and "OnSendSyncMessage env i msg invocation t =
       emit [LOGGER ERROR (''Failed to find instance '' @ quoted i),
             return_error invocation (''Not found instance '' @ i)] t"
    and "OnPostMessage env i msg t =
       emit [LOGGER ERROR (''Failed to find instance '' @ quoted i)] t"
  using assms by (simp_all add: OnDestroyInstance_def OnSendSyncMessage_def OnPostMessage_def)

text \<open>
  C4. Start from a server with no instance and process any sequence of method calls
  in which \<^verbatim>\<open>GenerateUUID\<close> never returns the same id twice. The id generated for a
  \<^verbatim>\<open>CreateInstance\<close> call is not in the instance table when the call arrives, so a new
  instance never takes the id of a live one. Once \<^verbatim>\<open>DestroyInstance\<close> has destroyed a
  live id, the id is absent from the instance table after every later call of the
  sequence, and in each of these states \<^verbatim>\<open>DestroyInstance\<close> and \<^verbatim>\<open>SendSyncMessage\<close> on
  it reply with the error ``Not found instance'' and \<^verbatim>\<open>PostMessage\<close> on it only logs.
\<close>

theorem instance_ids_unique_and_never_reused:
  assumes "instances s0 = Map.empty" and "distinct (generated calls)"
  shows "(\<forall>pre env connection extension_name invocation post.
            calls = pre @ (env, connection, kMethodCreateInstance extension_name, invocation)
                      # post \<longrightarrow>
            instances (run pre s0) (GenerateUUID env) = None)
    \<and> (\<forall>pre env connection i invocation mid post t.
            calls = pre @ (env, connection, kMethodDestroyInstance i, invocation) # mid @ post
            \<and> instances (run pre s0) i \<noteq> None
            \<and> t = run (pre @ (env, connection, kMethodDestroyInstance i, invocation) # mid) s0
            \<longrightarrow>
            instances t i = None
            \<and> OnDestroyInstance i later_invocation t =
                 emit [LOGGER ERROR (''Failed to find instance '' @ quoted i),
                       return_error later_invocation (''Not found instance '' @ i)] t
            \<and> OnSendSyncMessage later_env i msg later_invocation t =
                 emit [LOGGER ERROR (''Failed to find instance '' @ quoted i),
                       return_error later_invocation (''Not found instance '' @ i)] t
            \<and> OnPostMessage later_env i msg t =
                 emit [LOGGER ERROR (''Failed to find instance '' @ quoted i)] t)"
proof (intro conjI allI impI)
  fix pre env connection extension_name invocation post
  assume split: "calls = pre @ (env, connection, kMethodCreateInstance extension_name,
      invocation) # post"
  have "generated calls = generated pre @ GenerateUUID env # generated post"
    unfolding split by (simp add: generated_append)
  with assms(2) have "GenerateUUID env \<notin> set (generated pre)" by simp
  moreover have "dom (instances (run pre s0)) \<subseteq> set (generated pre)"
    using run_dom [of pre s0] assms(1) by simp
  ultimately show "instances (run pre s0) (GenerateUUID env) = None" by blast
next
  fix pre env connection i invocation mid post t
  assume h: "calls = pre @ (env, connection, kMethodDestroyInstance i, invocation) # mid @ post
      \<and> instances (run pre s0) i \<noteq> None
      \<and> t = run (pre @ (env, connection, kMethodDestroyInstance i, invocation) # mid) s0"
  let ?d = "(env, connection, kMethodDestroyInstance i, invocation)"
  have gen: "generated calls = generated pre @ generated mid @ generated post"
    using h by (simp add: generated_append)
  have "dom (instances (run pre s0)) \<subseteq> set (generated pre)"
    using run_dom [of pre s0] assms(1) by simp
  with h have "i \<in> set (generated pre)" by blast
  with assms(2) gen have fresh: "i \<notin> set (generated mid)" by auto
  have t: "t = run mid (OnDestroyInstance i invocation (run pre s0))"
    using h by (simp add: run_append run_Cons dispatch_def)
  have "instances (OnDestroyInstance i invocation (run pre s0)) i = None"
    by (rule destroy_erases)
  with fresh run_dom [of mid "OnDestroyInstance i invocation (run pre s0)"]
  have none: "instances t i = None"
    unfolding t by blast
  show "instances t i = None" by (rule none)
  show "OnDestroyInstance i later_invocation t =
       emit [LOGGER ERROR (''Failed to find instance '' @ quoted i),
             return_error later_invocation (''Not found instance '' @ i)] t"
    by (rule rejected_when_not_live(1) [OF none])
  show "OnSendSyncMessage later_env i msg later_invocation t =
       emit [LOGGER ERROR (''Failed to find instance '' @ quoted i),
             return_error later_invocation (''Not found instance '' @ i)] t"
    by (rule rejected_when_not_live(2) [OF none])
  show "OnPostMessage later_env i msg t =
       emit [LOGGER ERROR (''Failed to find instance '' @ quoted i)] t"
    by (rule rejected_when_not_live(3) [OF none])
qed

theorem instance_ids_unique_and_never_reused_witness:
  "distinct (generated sample_calls)
   \<and> instances (run (take 1 sample_calls) sample_server) ''id-1'' = Some sample_instance
   \<and> instances (run (take 2 sample_calls) sample_server) ''id-2'' = None
   \<and> instances (run (take 3 sample_calls) sample_server) ''id-1'' = None
   \<and> OnSendSyncMessage sample_env ''id-1'' ''ping'' 15 (run (take 3 sample_calls) sample_server) =
       emit [LOGGER ERROR (''Failed to find instance '' @ quoted ''id-1''),
             return_error 15 ''Not found instance id-1'']
         (run (take 3 sample_calls) sample_server)"
proof -
  let ?c1 = "(sample_env, Connection 1, kMethodCreateInstance ''geo'', 12)"
  let ?c2 = "(sample_env, Connection 1, kMethodDestroyInstance ''id-1'', 13)"
  let ?c3 = "(sample_env\<lparr>GenerateUUID := ''id-2''\<rparr>, Connection 1,
      kMethodCreateInstance ''geo'', 14)"
  let ?c4 = "(sample_env, Connection 1, kMethodSendSyncMessage ''id-1'' ''ping'', 15)"
  have d: "distinct (generated sample_calls)"
    by (simp add: sample_calls_def sample_env_def)
  have t1: "take 1 sample_calls = [?c1]" by (simp add: sample_calls_def)
  have t2: "take 2 sample_calls = [?c1, ?c2]" by (simp add: sample_calls_def numeral_2_eq_2)
  have t3: "take 3 sample_calls = [?c1] @ ?c2 # [?c3]"
    by (simp add: sample_calls_def numeral_3_eq_3)
  have live: "instances (run (take 1 sample_calls) sample_server) ''id-1'' = Some sample_instance"
    unfolding t1 using sample_live_instance
    by (simp add: run_def dispatch_def sample_live_def)
  have split_create: "sample_calls = [?c1, ?c2] @ ?c3 # [?c4]"
    by (simp add: sample_calls_def)
  have split_destroy: "sample_calls = [?c1] @ ?c2 # [?c3] @ [?c4]"
    by (simp add: sample_calls_def)
  have id2: "GenerateUUID (sample_env\<lparr>GenerateUUID := ''id-2''\<rparr>) = ''id-2''" by simp
  note T = instance_ids_unique_and_never_reused [where calls = sample_calls
      and ?s0.0 = sample_server and later_env = sample_env and later_invocation = 15
      and msg = "''ping''", OF sample_server_instances d]
  have a: "instances (run (take 2 sample_calls) sample_server) ''id-2'' = None"
    using T [THEN conjunct1, THEN spec [of _ "[?c1, ?c2]"],
        THEN spec [of _ "sample_env\<lparr>GenerateUUID := ''id-2''\<rparr>"],
        THEN spec [of _ "Connection 1"], THEN spec [of _ "''geo''"], THEN spec [of _ 14],
        THEN spec [of _ "[?c4]"], THEN mp, OF split_create]
    unfolding t2 id2 .
  have live': "instances (run [?c1] sample_server) ''id-1'' \<noteq> None"
    using live unfolding t1 by simp
  note D = T [THEN conjunct2, THEN spec [of _ "[?c1]"], THEN spec [of _ sample_env],
        THEN spec [of _ "Connection 1"], THEN spec [of _ "''id-1''"], THEN spec [of _ 13],
        THEN spec [of _ "[?c3]"], THEN spec [of _ "[?c4]"],
        THEN spec [of _ "run (take 3 sample_calls) sample_server"], THEN mp]
  have b: "instances (run (take 3 sample_calls) sample_server) ''id-1'' = None
     \<and> OnDestroyInstance ''id-1'' 15 (run (take 3 sample_calls) sample_server) =
       emit [LOGGER ERROR (''Failed to find instance '' @ quoted ''id-1''),
             return_error 15 (''Not found instance '' @ ''id-1'')]
         (run (take 3 sample_calls) sample_server)
     \<and> OnSendSyncMessage sample_env ''id-1'' ''ping'' 15
         (run (take 3 sample_calls) sample_server) =
       emit [LOGGER ERROR (''Failed to find instance '' @ quoted ''id-1''),
             return_error 15 (''Not found instance '' @ ''id-1'')]
         (run (take 3 sample_calls) sample_server)
     \<and> OnPostMessage sample_env ''id-1'' ''ping'' (run (take 3 sample_calls) sample_server) =
       emit [LOGGER ERROR (''Failed to find instance '' @ quoted ''id-1'')]
         (run (take 3 sample_calls) sample_server)"
    by (rule D) (intro conjI split_destroy live' t3 [THEN arg_cong, of "\<lambda>cs. run cs sample_server"])
  have c: "OnSendSyncMessage sample_env ''id-1'' ''ping'' 15
         (run (take 3 sample_calls) sample_server) =
       emit [LOGGER ERROR (''Failed to find instance '' @ quoted ''id-1''),
             return_error 15 ''Not found instance id-1'']
         (run (take 3 sample_calls) sample_server)"
    using b [THEN conjunct2, THEN conjunct2, THEN conjunct1] by simp
  show ?thesis
    by (intro conjI) (rule d live a b [THEN conjunct1] c)+
qed







end
